theory Spec2Isabelle
  imports Complex_Main "HOL-Library.AList" "HOL-Library.Sublist"
begin

section \<open>Exceptions of the Python source\<close>

text \<open>
  The functions of \<^verbatim>\<open>main.py\<close> modelled here raise no exception of their own, but two of
  their statements can raise by Python's semantics: \<^verbatim>\<open>del d[k]\<close> on a missing key and the
  division by \<^verbatim>\<open>len(lines)\<close>. Each is a branch of the model.
\<close>

datatype py_error = KeyError | ZeroDivisionError

section \<open>Submission gate: \<^verbatim>\<open>check_rate_limit\<close>\<close>

text \<open>
  \<^verbatim>\<open>user_rate_limit: Dict[int, float]\<close> is a module-level dict. A Python dict keeps its keys
  in insertion order, so it is an association list with distinct keys; \<^verbatim>\<open>time.time()\<close> is
  read once per call and is an argument of the model (a real number stands for the float:
  the only arithmetic on it is one subtraction and one comparison).
  \<^verbatim>\<open>RATE_LIMIT_WINDOW\<close> is read from the environment and is an argument too.
\<close>

type_synonym rate_map = "(int \<times> real) list"

definition dict_clear :: "('k \<times> 'v) list \<Rightarrow> ('k \<times> 'v) list" where
  "dict_clear d = []"

definition dict_items :: "('k \<times> 'v) list \<Rightarrow> ('k \<times> 'v) list" where
  "dict_items d = d"

definition dict_contains :: "'k \<Rightarrow> ('k \<times> 'v) list \<Rightarrow> bool" where
  "dict_contains k d = (map_of d k \<noteq> None)"

text \<open>
  The purge loop \<^verbatim>\<open>for uid, timestamp in list(user_rate_limit.items())\<close> runs over a snapshot
  of the items and deletes the stale keys from the dict itself.
\<close>

fun purge_loop :: "int \<Rightarrow> real \<Rightarrow> (int \<times> real) list \<Rightarrow> rate_map \<Rightarrow> py_error + rate_map" where
  "purge_loop window current_time [] d = Inr d"
| "purge_loop window current_time ((uid, timestamp) # items) d =
     (if current_time - timestamp > real_of_int window
      then (if dict_contains uid d
            then purge_loop window current_time items (AList.delete uid d)
            else Inl KeyError)
      else purge_loop window current_time items d)"

definition check_rate_limit ::
  "int \<Rightarrow> real \<Rightarrow> int \<Rightarrow> rate_map \<Rightarrow> py_error + (bool \<times> rate_map)" where
  "check_rate_limit window current_time user_id user_rate_limit =
     (let cleared = dict_clear user_rate_limit
      in case purge_loop window current_time (dict_items cleared) cleared of
           Inl e \<Rightarrow> Inl e
         | Inr d \<Rightarrow>
             if dict_contains user_id d then Inr (False, d)
             else Inr (True, AList.update user_id current_time d))"

text \<open>
  A history of calls: each call is the clock reading and the actor; the dict is threaded
  through, the answers are collected. An exception ends the run, as it would end the caller.
\<close>

fun gate_run ::
  "int \<Rightarrow> (real \<times> int) list \<Rightarrow> rate_map \<Rightarrow> py_error + (bool list \<times> rate_map)" where
  "gate_run window [] d = Inr ([], d)"
| "gate_run window ((t, u) # calls) d =
     (case check_rate_limit window t u d of
        Inl e \<Rightarrow> Inl e
      | Inr (b, d') \<Rightarrow>
          (case gate_run window calls d' of
             Inl e \<Rightarrow> Inl e
           | Inr (bs, d'') \<Rightarrow> Inr (b # bs, d'')))"

section \<open>Text\<close>

text \<open>
  A Python \<^verbatim>\<open>str\<close> is a sequence of code points and \<^verbatim>\<open>len\<close> counts them. The model is a
  list of characters, one per code point, over the code points 0 to 255; \<^verbatim>\<open>str.lower\<close> and
  \<^verbatim>\<open>str.isspace\<close> are Python's on that range.
\<close>

definition bs :: char where
  "bs = CHR 0x5C"

definition isspace :: "char \<Rightarrow> bool" where
  "isspace c =
     (let n = (of_char c :: nat)
      in (9 \<le> n \<and> n \<le> 13) \<or> (28 \<le> n \<and> n \<le> 32) \<or> n = 133 \<or> n = 160)"

definition lower_char :: "char \<Rightarrow> char" where
  "lower_char c =
     (let n = (of_char c :: nat)
      in if (65 \<le> n \<and> n \<le> 90) \<or> (192 \<le> n \<and> n \<le> 222 \<and> n \<noteq> 215)
         then char_of (n + 32) else c)"

definition lower :: "string \<Rightarrow> string" where
  "lower s = map lower_char s"

definition strip :: "string \<Rightarrow> string" where
  "strip s = rev (dropWhile isspace (rev (dropWhile isspace s)))"

text \<open>
  \<^verbatim>\<open>s.split('\n')\<close>: the pieces between line feeds, never an empty list. A character other
  than a line feed in front of a text joins the first piece of the rest.
\<close>

fun cons_first :: "char \<Rightarrow> string list \<Rightarrow> string list" where
  "cons_first c [] = [c] # []"
| "cons_first c (piece # pieces) = (c # piece) # pieces"

fun split_lines :: "string \<Rightarrow> string list" where
  "split_lines [] = [] # []"
| "split_lines (c # cs) =
     (if c = CHR 0x0A then [] # split_lines cs else cons_first c (split_lines cs))"

text \<open>\<^verbatim>\<open>s.startswith(p)\<close> and \<^verbatim>\<open>p in s\<close>.\<close>

fun startswith :: "string \<Rightarrow> string \<Rightarrow> bool" where
  "startswith s [] = True"
| "startswith [] (p # ps) = False"
| "startswith (c # cs) (p # ps) = (c = p \<and> startswith cs ps)"

fun str_in :: "string \<Rightarrow> string \<Rightarrow> bool" where
  "str_in p [] = (p = [])"
| "str_in p (c # cs) = (startswith (c # cs) p \<or> str_in p cs)"

section \<open>The regular expression module\<close>

text \<open>
  \<^verbatim>\<open>re\<close> is Python's library, not code of the repository: the three functions the source
  calls are a parameter of the model, and every theorem below holds for whatever they
  answer. \<open>re_search re p s\<close> is \<^verbatim>\<open>re.search(p, s, re.IGNORECASE)\<close> read as a condition (a match
  object is true, \<^verbatim>\<open>None\<close> is false), \<open>re_findall re p s\<close> is
  \<^verbatim>\<open>re.findall(p, s, re.IGNORECASE)\<close> and \<open>re_escape re k\<close> is \<^verbatim>\<open>re.escape(k)\<close>.
\<close>

record re_module =
  re_search :: "string \<Rightarrow> string \<Rightarrow> bool"
  re_findall :: "string \<Rightarrow> string \<Rightarrow> string list"
  re_escape :: "string \<Rightarrow> string"

section \<open>Language detector: \<^verbatim>\<open>detect_language_from_content\<close>\<close>

text \<open>
  One entry of the dict \<^verbatim>\<open>language_patterns\<close>. Every entry of the source has the three keys,
  so the default of \<^verbatim>\<open>config.get('weight', 1)\<close> is never taken. The dict literal keeps its
  insertion order; a backslash of a raw string is written \<open>bs\<close>.
\<close>

record lang_config =
  cfg_patterns :: "string list"
  cfg_keywords :: "string list"
  cfg_weight :: int

definition language_patterns :: "(string \<times> lang_config) list" where
  \<open>language_patterns = [
    (''html'', \<lparr>
       cfg_patterns = [''<!DOCTYPE html>'',
         ''<html[^>]*>'',
         ''<head[^>]*>'',
         ''<body[^>]*>'',
         ''</html>'',
         bs # ''.html$''],
       cfg_keywords = [''<!DOCTYPE'', ''<html'', ''<head'', ''<body'', ''<div'', ''<span'', ''<p'', ''<a'', ''<script'', ''<style''],
       cfg_weight = 20\<rparr>),
    (''css'', \<lparr>
       cfg_patterns = [bs # ''.'' @ bs # ''w+'' @ bs # ''s*'' @ bs # ''{'',
         ''@media'' @ bs # ''s*'' @ bs # ''('',
         ''@import'' @ bs # ''s+url'',
         bs # ''.css$''],
       cfg_keywords = [''{'', ''}'', '':'', '';'', ''@media'', ''@import'', ''background'', ''color'', ''font'', ''margin'', ''padding'', ''display'', ''position''],
       cfg_weight = 15\<rparr>),
    (''javascript'', \<lparr>
       cfg_patterns = [''function'' @ bs # ''s+'' @ bs # ''w+'' @ bs # ''s*'' @ bs # ''('',
         ''const'' @ bs # ''s+'' @ bs # ''w+'' @ bs # ''s*='',
         ''let'' @ bs # ''s+'' @ bs # ''w+'' @ bs # ''s*='',
         ''var'' @ bs # ''s+'' @ bs # ''w+'' @ bs # ''s*='',
         ''console'' @ bs # ''.log'',
         bs # ''.js$''],
       cfg_keywords = [''function'', ''const'', ''let'', ''var'', ''console.log'', ''=>'', ''async'', ''await'', ''export'', ''import'', ''return'', ''if'', ''else''],
       cfg_weight = 15\<rparr>),
    (''python'', \<lparr>
       cfg_patterns = [''^#!/.*python'',
         ''import'' @ bs # ''s+'' @ bs # ''w+'',
         ''from'' @ bs # ''s+'' @ bs # ''w+'' @ bs # ''s+import'',
         ''def'' @ bs # ''s+'' @ bs # ''w+'' @ bs # ''s*'' @ bs # ''('',
         ''class'' @ bs # ''s+'' @ bs # ''w+'',
         bs # ''.py$''],
       cfg_keywords = [''def'', ''class'', ''import'', ''from'', ''if __name__'', ''print'', ''return'', ''self'', ''True'', ''False'', ''None'', ''try'', ''except''],
       cfg_weight = 15\<rparr>),
    (''php'', \<lparr>
       cfg_patterns = [''<'' @ bs # ''?php'',
         bs # ''$'' @ bs # ''w+'' @ bs # ''s*='',
         ''echo'' @ bs # ''s+'',
         ''function'' @ bs # ''s+'' @ bs # ''w+'',
         bs # ''.php$''],
       cfg_keywords = [''<?php'', ''echo'', ''$'', ''function'', ''class'', ''namespace'', ''use'', ''return'', ''if'', ''else''],
       cfg_weight = 12\<rparr>),
    (''sql'', \<lparr>
       cfg_patterns = [''SELECT'' @ bs # ''s+.*FROM'',
         ''INSERT'' @ bs # ''s+INTO'',
         ''UPDATE'' @ bs # ''s+'' @ bs # ''w+'' @ bs # ''s+SET'',
         ''DELETE'' @ bs # ''s+FROM'',
         ''CREATE'' @ bs # ''s+TABLE'',
         bs # ''.sql$''],
       cfg_keywords = [''SELECT'', ''INSERT'', ''UPDATE'', ''DELETE'', ''CREATE'', ''FROM'', ''WHERE'', ''JOIN'', ''GROUP BY'', ''ORDER BY''],
       cfg_weight = 12\<rparr>),
    (''java'', \<lparr>
       cfg_patterns = [''public'' @ bs # ''s+class'' @ bs # ''s+'' @ bs # ''w+'',
         ''import'' @ bs # ''s+java'' @ bs # ''.'',
         ''System'' @ bs # ''.out'' @ bs # ''.print'',
         ''public'' @ bs # ''s+static'' @ bs # ''s+void'' @ bs # ''s+main'',
         bs # ''.java$''],
       cfg_keywords = [''public'', ''class'', ''import'', ''System.out'', ''static'', ''void'', ''String'', ''int'', ''private'', ''protected''],
       cfg_weight = 12\<rparr>),
    (''cpp'', \<lparr>
       cfg_patterns = [''#include'' @ bs # ''s*<[^>]+>'',
         ''using'' @ bs # ''s+namespace'' @ bs # ''s+std'',
         ''std::'',
         ''int'' @ bs # ''s+main'' @ bs # ''s*'' @ bs # ''('',
         bs # ''.cpp$''],
       cfg_keywords = [''#include'', ''using namespace'', ''std::'', ''cout'', ''cin'', ''int main'', ''vector'', ''string'', ''class''],
       cfg_weight = 10\<rparr>),
    (''bash'', \<lparr>
       cfg_patterns = [''#!/bin/bash'',
         ''#!/bin/sh'',
         ''echo'' @ bs # ''s+["'' @ bs # ''\']'',
         ''if'' @ bs # ''s+'' @ bs # ''[.*'' @ bs # ''];'' @ bs # ''s+then'',
         ''for'' @ bs # ''s+'' @ bs # ''w+'' @ bs # ''s+in'',
         bs # ''.sh$''],
       cfg_keywords = [''#!/bin'', ''echo'', ''if ['', ''for'', ''while'', ''do'', ''done'', ''then'', ''fi'', ''exit''],
       cfg_weight = 10\<rparr>),
    (''json'', \<lparr>
       cfg_patterns = [''^'' @ bs # ''s*'' @ bs # ''{.*'' @ bs # ''}$'',
         ''^'' @ bs # ''s*'' @ bs # ''[.*'' @ bs # '']$'',
         ''"['' @ bs # ''w-]+"'' @ bs # ''s*:'',
         bs # ''.json$''],
       cfg_keywords = [''{'', ''}'', ''['', '']'', '':'', ''"'', ''true'', ''false'', ''null''],
       cfg_weight = 8\<rparr>),
    (''xml'', \<lparr>
       cfg_patterns = [''<'' @ bs # ''?xml[^>]*'' @ bs # ''?>'',
         ''<[^>]+>.*</[^>]+>'',
         ''<[^>]+/>'',
         bs # ''.xml$''],
       cfg_keywords = [''<?xml'', ''<'', ''>'', ''</'', ''version='', ''encoding=''],
       cfg_weight = 8\<rparr>),
    (''yaml'', \<lparr>
       cfg_patterns = [''^'' @ bs # ''s*'' @ bs # ''w+:'' @ bs # ''s*[^#'' @ bs # ''n]*$'',
         ''^'' @ bs # ''s*-'' @ bs # ''s+'' @ bs # ''w+'',
         ''^'' @ bs # ''s*#.*$'',
         bs # ''.yml$'',
         bs # ''.yaml$''],
       cfg_keywords = ['':'', ''-'', ''version:'', ''name:'', ''description:'', ''#''],
       cfg_weight = 8\<rparr>),
    (''markdown'', \<lparr>
       cfg_patterns = [''^#'' @ bs # ''s+'' @ bs # ''w+'',
         ''^'' @ bs # ''*'' @ bs # ''s+'' @ bs # ''w+'',
         ''^-'' @ bs # ''s+'' @ bs # ''w+'',
         bs # ''*'' @ bs # ''*[^*]+'' @ bs # ''*'' @ bs # ''*'',
         ''__[^_]+__'',
         bs # ''.md$''],
       cfg_keywords = [''#'', ''*'', ''-'', ''##'', ''###'', ''**'', ''__'', ''```''],
       cfg_weight = 6\<rparr>),
    (''c'', \<lparr>
       cfg_patterns = [''#include'' @ bs # ''s*<[^>]+>'',
         ''int'' @ bs # ''s+main'' @ bs # ''s*'' @ bs # ''('',
         ''printf'' @ bs # ''s*'' @ bs # ''('',
         ''scanf'' @ bs # ''s*'' @ bs # ''('',
         bs # ''.c$''],
       cfg_keywords = [''#include'', ''int main'', ''printf'', ''scanf'', ''malloc'', ''free'', ''struct'', ''return''],
       cfg_weight = 5\<rparr>)
  ]\<close>

text \<open>The loop over \<^verbatim>\<open>config['patterns']\<close>, with the score as accumulator.\<close>

fun check_patterns :: "re_module \<Rightarrow> string \<Rightarrow> int \<Rightarrow> string list \<Rightarrow> int \<Rightarrow> int" where
  "check_patterns re content w [] score = score"
| "check_patterns re content w (pattern # ps) score =
     check_patterns re content w ps
       (if re_search re pattern content then score + 10 * w else score)"

text \<open>The loop over \<^verbatim>\<open>config['keywords']\<close>.\<close>

definition keyword_matches :: "re_module \<Rightarrow> string \<Rightarrow> string \<Rightarrow> int" where
  "keyword_matches re content keyword =
     (let escaped_keyword = re_escape re keyword
      in int (length (re_findall re (bs # ''b'' @ escaped_keyword @ bs # ''b'') content)))"

fun check_keywords :: "re_module \<Rightarrow> string \<Rightarrow> int \<Rightarrow> string list \<Rightarrow> int \<Rightarrow> int" where
  "check_keywords re content w [] score = score"
| "check_keywords re content w (keyword # ks) score =
     check_keywords re content w ks (score + keyword_matches re content keyword * w)"

text \<open>The body of the loop over the languages, up to the test \<^verbatim>\<open>score > 0\<close>.\<close>

definition lang_score :: "re_module \<Rightarrow> string \<Rightarrow> lang_config \<Rightarrow> int" where
  "lang_score re content config =
     check_keywords re content (cfg_weight config) (cfg_keywords config)
       (check_patterns re content (cfg_weight config) (cfg_patterns config) 0)"

text \<open>
  The loop over \<^verbatim>\<open>language_patterns.items()\<close>; \<^verbatim>\<open>scores[lang] = score\<close> is the update of a dict
  in insertion order.
\<close>

fun score_loop ::
  "re_module \<Rightarrow> string \<Rightarrow> (string \<times> lang_config) list \<Rightarrow> (string \<times> int) list
     \<Rightarrow> (string \<times> int) list" where
  "score_loop re content [] scores = scores"
| "score_loop re content ((lang, config) # rest) scores =
     (let score = lang_score re content config
      in score_loop re content rest
           (if score > 0 then AList.update lang score scores else scores))"

text \<open>
  \<^verbatim>\<open>max(scores, key=scores.get)\<close> walks the keys in the dict's order and replaces its candidate
  only by a strictly greater one.
\<close>

fun max_loop :: "(string \<times> int) list \<Rightarrow> string \<times> int \<Rightarrow> string \<times> int" where
  "max_loop [] best = best"
| "max_loop (kv # rest) best = max_loop rest (if snd kv > snd best then kv else best)"

text \<open>
  Lines 143 to 168: \<^verbatim>\<open>if scores:\<close> is true of a non-empty dict, so \<^verbatim>\<open>max\<close> never sees an
  empty one.
\<close>

definition scored_detection :: "re_module \<Rightarrow> string \<Rightarrow> string option" where
  "scored_detection re content =
     (case score_loop re content language_patterns [] of
        [] \<Rightarrow> None
      | kv # rest \<Rightarrow> Some (fst (max_loop rest kv)))"

definition first_line :: "string \<Rightarrow> string" where
  "first_line content =
     (case split_lines content of [] \<Rightarrow> [] | l # ls \<Rightarrow> lower l)"

definition detect_language_from_content :: "re_module \<Rightarrow> string \<Rightarrow> string option" where
  "detect_language_from_content re content =
     (if content = [] \<or> strip content = [] then None
      else if startswith (first_line content) ''#!''
      then (if str_in ''python'' (first_line content) then Some ''python''
            else if str_in ''bash'' (first_line content) \<or> str_in ''sh'' (first_line content)
            then Some ''bash''
            else if str_in ''node'' (first_line content) then Some ''javascript''
            else scored_detection re content)
      else scored_detection re content)"

section \<open>Eligibility classifier: \<^verbatim>\<open>should_create_paste\<close>\<close>

definition code_indicators :: "string list" where
  \<open>code_indicators = [
    ''```'',
    ''^'' @ bs # ''s*[a-zA-Z_][a-zA-Z0-9_]*'' @ bs # ''s*[=:]'' @ bs # ''s*'',
    ''^'' @ bs # ''s*(def|function|class|import|from|if|for|while|try|catch)'' @ bs # ''s+'',
    ''^'' @ bs # ''s*[{}()'' @ bs # ''['' @ bs # '']]'',
    ''^'' @ bs # ''s*[#/]'' @ bs # ''s*'',
    ''^'' @ bs # ''s*[a-zA-Z_][a-zA-Z0-9_]*'' @ bs # ''s*'' @ bs # ''(''
  ]\<close>

text \<open>The inner loop over \<^verbatim>\<open>code_indicators\<close>, left at the first match.\<close>

fun any_indicator :: "re_module \<Rightarrow> string list \<Rightarrow> string \<Rightarrow> bool" where
  "any_indicator re [] line = False"
| "any_indicator re (pattern # ps) line =
     (if re_search re pattern line then True else any_indicator re ps line)"

fun count_code_lines :: "re_module \<Rightarrow> string list \<Rightarrow> nat \<Rightarrow> nat" where
  "count_code_lines re [] code_line_count = code_line_count"
| "count_code_lines re (line # ls) code_line_count =
     count_code_lines re ls
       (if any_indicator re code_indicators line then code_line_count + 1
        else code_line_count)"

text \<open>
  \<^verbatim>\<open>MIN_MESSAGE_LENGTH\<close> is read from the environment (default 200) and is an argument.
  \<^verbatim>\<open>code_line_count / len(lines) > 0.3\<close> is a comparison of floats in the source and of real
  numbers here: the two agree as long as the text has fewer than \<open>10 ^ 15\<close> lines, since a
  quotient of two such integers other than \<open>3 / 10\<close> is further from it than the rounding.
  The right operand of \<^verbatim>\<open>or\<close> is evaluated only when the left one is false.
\<close>

definition should_create_paste :: "re_module \<Rightarrow> int \<Rightarrow> string \<Rightarrow> py_error + bool" where
  "should_create_paste re min_message_length text =
     (if int (length text) < min_message_length then Inr False
      else
        let lines = split_lines text;
            code_line_count = count_code_lines re lines 0
        in if int (length text) > 1000 then Inr True
           else if length lines = 0 then Inl ZeroDivisionError
           else if real code_line_count / real (length lines) > 3 / 10 then Inr True
           else (case detect_language_from_content re text of
                   None \<Rightarrow> Inr False
                 | Some detected_lang \<Rightarrow> Inr (detected_lang \<noteq> [])))"

section \<open>Notions of the specification\<close>

text \<open>
  The specification speaks of the code-line ratio: the lines that match at least one
  indicator pattern, each counted once, over all lines. This is the ratio in its words; it
  is compared below with the counter the source keeps.
\<close>

definition matches_some_indicator :: "re_module \<Rightarrow> string \<Rightarrow> bool" where
  "matches_some_indicator re line = (\<exists>pattern\<in>set code_indicators. re_search re pattern line)"

definition code_line_ratio :: "re_module \<Rightarrow> string \<Rightarrow> real" where
  "code_line_ratio re text =
     real (length (filter (matches_some_indicator re) (split_lines text)))
       / real (length (split_lines text))"

text \<open>
  The candidate set of the specification: the languages of a catalog with a positive score,
  in the catalog's order. It is compared below with the dict \<^verbatim>\<open>scores\<close> of the source.
\<close>

definition candidates ::
  "re_module \<Rightarrow> string \<Rightarrow> (string \<times> lang_config) list \<Rightarrow> (string \<times> int) list" where
  "candidates re content cat =
     map (\<lambda>(lang, config). (lang, lang_score re content config))
       (filter (\<lambda>(lang, config). lang_score re content config > 0) cat)"

text \<open>
  The two early exits of the detector, as the source tests them: the text is empty or
  blank, and the first line is a shebang line that names one of the three interpreters.
\<close>

definition is_blank :: "string \<Rightarrow> bool" where
  "is_blank content = (content = [] \<or> strip content = [])"

definition takes_shebang_shortcut :: "string \<Rightarrow> bool" where
  "takes_shebang_shortcut content =
     (startswith (first_line content) ''#!''
      \<and> (str_in ''python'' (first_line content) \<or> str_in ''bash'' (first_line content)
         \<or> str_in ''sh'' (first_line content) \<or> str_in ''node'' (first_line content)))"

section \<open>A regular expression module for closed examples\<close>

text \<open>
  The theorems quantify over the module; an example needs one. \<open>literal_re\<close> reads every
  pattern as plain text: a search is a substring test, the matches found are the
  occurrences of the pattern from left to right without overlap, and nothing needs
  escaping. On a pattern without metacharacters and a text in the letter case of the
  pattern it answers as Python's module does.
\<close>

fun occurrences :: "string \<Rightarrow> string \<Rightarrow> string list" where
  "occurrences p [] = []"
| "occurrences p (c # cs) =
     (if p \<noteq> [] \<and> startswith (c # cs) p
      then p # occurrences p (drop (length p - 1) cs)
      else occurrences p cs)"

definition literal_re :: re_module where
  "literal_re =
     \<lparr>re_search = (\<lambda>p s. str_in p s),
      re_findall = occurrences,
      re_escape = (\<lambda>k. k)\<rparr>"

section \<open>The regular expression of the keyword loop\<close>

text \<open>
  The keyword loop searches one shape of pattern only: \<^verbatim>\<open>\b\<close>, the keyword escaped by
  \<^verbatim>\<open>re.escape\<close>, \<^verbatim>\<open>\b\<close>, with \<^verbatim>\<open>re.IGNORECASE\<close>. What Python's \<^verbatim>\<open>re\<close> answers on that shape is
  written out here, on the code points 0 to 255: \<^verbatim>\<open>\w\<close> is an alphanumeric character or the underscore,
  \<^verbatim>\<open>\b\<close> holds between two positions of which exactly one is a word character (the ends of
  the text count as none), two characters are equal without case when their lower-case
  forms are equal, and \<^verbatim>\<open>findall\<close> collects the matches from left to right, resuming after
  each match. \<open>prev\<close> is the character in front of the position that is tried and \<open>skip\<close>
  the number of characters still covered by the last match.
\<close>

definition is_word_char :: "char \<Rightarrow> bool" where
  "is_word_char c =
     (let n = (of_char c :: nat)
      in (48 \<le> n \<and> n \<le> 57) \<or> (65 \<le> n \<and> n \<le> 90) \<or> n = 95 \<or> (97 \<le> n \<and> n \<le> 122)
         \<or> n = 170 \<or> n = 178 \<or> n = 179 \<or> n = 181 \<or> n = 185 \<or> n = 186
         \<or> (188 \<le> n \<and> n \<le> 190) \<or> (192 \<le> n \<and> n \<le> 214) \<or> (216 \<le> n \<and> n \<le> 246)
         \<or> 248 \<le> n)"

definition word_boundary :: "char option \<Rightarrow> char option \<Rightarrow> bool" where
  "word_boundary prev after =
     ((case prev of None \<Rightarrow> False | Some c \<Rightarrow> is_word_char c)
        \<noteq> (case after of None \<Rightarrow> False | Some c \<Rightarrow> is_word_char c))"

fun ci_startswith :: "string \<Rightarrow> string \<Rightarrow> bool" where
  "ci_startswith s [] = True"
| "ci_startswith [] (k # ks) = False"
| "ci_startswith (c # cs) (k # ks) = (lower_char c = lower_char k \<and> ci_startswith cs ks)"

definition char_at :: "string \<Rightarrow> nat \<Rightarrow> char option" where
  "char_at s i = (case drop i s of [] \<Rightarrow> None | c # cs \<Rightarrow> Some c)"

definition match_here :: "string \<Rightarrow> char option \<Rightarrow> string \<Rightarrow> bool" where
  "match_here kw prev s =
     (ci_startswith s kw
      \<and> word_boundary prev (char_at s 0)
      \<and> word_boundary (if kw = [] then prev else char_at s (length kw - 1))
            (char_at s (length kw)))"

fun findall_from :: "string \<Rightarrow> char option \<Rightarrow> nat \<Rightarrow> string \<Rightarrow> string list" where
  "findall_from kw prev skip [] = (if match_here kw prev [] then [] # [] else [])"
| "findall_from kw prev skip (c # cs) =
     (if skip > 0 then findall_from kw (Some c) (skip - 1) cs
      else if match_here kw prev (c # cs)
      then take (length kw) (c # cs) # findall_from kw (Some c) (length kw - 1) cs
      else findall_from kw (Some c) 0 cs)"

definition word_bounded_findall :: "string \<Rightarrow> string \<Rightarrow> string list" where
  "word_bounded_findall kw s = findall_from kw None 0 s"

text \<open>
  \<^verbatim>\<open>re.escape\<close> puts a backslash in front of the special characters; a backslash in front
  of a character that is neither a letter nor a digit stands for that character.
  \<open>wrapped_keyword\<close> reads a pattern of the shape above back into its keyword.
\<close>

definition special_chars :: string where
  "special_chars =
     ''()[]{}?*+-|^$'' @ bs # ''.&~# '' @ [CHR 0x09, CHR 0x0A, CHR 0x0D, CHR 0x0B, CHR 0x0C]"

definition py_escape :: "string \<Rightarrow> string" where
  "py_escape k = concat (map (\<lambda>c. if c \<in> set special_chars then [bs, c] else [c]) k)"

definition metachars :: string where
  "metachars = ''.^$*+?{}[]|()''"

definition is_ascii_alnum :: "char \<Rightarrow> bool" where
  "is_ascii_alnum c =
     (let n = (of_char c :: nat)
      in (48 \<le> n \<and> n \<le> 57) \<or> (65 \<le> n \<and> n \<le> 90) \<or> (97 \<le> n \<and> n \<le> 122))"

fun unescape_literal :: "string \<Rightarrow> string option" where
  "unescape_literal [] = Some []"
| "unescape_literal (c # rest) =
     (if c = bs
      then (case rest of
              [] \<Rightarrow> None
            | d # rest' \<Rightarrow>
                if is_ascii_alnum d then None
                else map_option ((#) d) (unescape_literal rest'))
      else if c \<in> set metachars then None
      else map_option ((#) c) (unescape_literal rest))"

definition wrapped_keyword :: "string \<Rightarrow> string option" where
  "wrapped_keyword p =
     (if 4 \<le> length p \<and> take 2 p = [bs, CHR ''b''] \<and> drop (length p - 2) p = [bs, CHR ''b'']
      then unescape_literal (take (length p - 4) (drop 2 p))
      else None)"

text \<open>
  A module \<open>base\<close> with Python's \<^verbatim>\<open>re.escape\<close> and with Python's answer for the patterns of the
  keyword loop; its search and its answer for any other pattern are those of \<open>base\<close>.
\<close>

definition keyword_re :: "re_module \<Rightarrow> re_module" where
  "keyword_re base =
     base\<lparr>re_findall :=
            (\<lambda>p s. case wrapped_keyword p of
                     Some kw \<Rightarrow> word_bounded_findall kw s
                   | None \<Rightarrow> re_findall base p s),
          re_escape := py_escape\<rparr>"

text \<open>Two texts of more than 200 characters for the examples of the classifier.\<close>

definition example_fenced :: string where
  "example_fenced =
     ''```python\<newline>''
     @ ''def fibonacci(n): return n if n < 2 else fibonacci(n - 1) + fibonacci(n - 2)\<newline>''
     @ ''for i in range(10): print(i, fibonacci(i), fibonacci(i) * fibonacci(i))\<newline>''
     @ ''print([fibonacci(i) for i in range(20)])\<newline>''
     @ ''```''"

definition example_prose :: string where
  "example_prose =
     ''Lorem ipsum dolor sit amet, consectetur adipiscing elit, sed eiusmod ''
     @ ''tempor incididunt ut labore et dolore magna aliqua. Ut enim ad minim ''
     @ ''veniam, quis nostrud exercitation ullamco laboris nisi ut aliquip ex ''
     @ ''ea commodo consequat.''"

section \<open>Properties of the submission gate\<close>

lemma check_rate_limit_eq:
  "check_rate_limit window t u d = Inr (True, [(u, t)])"
  by (simp add: check_rate_limit_def dict_clear_def dict_items_def dict_contains_def)

lemma gate_run_eq:
  "gate_run window calls d =
     Inr (replicate (length calls) True,
          (if calls = [] then d else [(snd (last calls), fst (last calls))]))"
proof (induction calls arbitrary: d)
  case Nil
  show ?case by simp
next
  case (Cons c calls)
  obtain t u where c: "c = (t, u)" by (cases c)
  show ?case
    by (simp add: c check_rate_limit_eq Cons.IH)
qed

text \<open>
  Claim C2. Every call of \<^verbatim>\<open>check_rate_limit\<close> returns true, whatever the actor and whatever
  the dict held before (so after any history of calls): the snapshot the purge loop runs
  over is the items of the dict just cleared, which is empty, the membership test that
  guards the deny branch is false, and the dict left behind holds the single entry of the
  calling actor at the current time. A whole history of calls is answered with true only.
\<close>

theorem check_rate_limit_always_true:
  "check_rate_limit window current_time user_id user_rate_limit
     = Inr (True, [(user_id, current_time)])
   \<and> dict_items (dict_clear user_rate_limit) = []
   \<and> purge_loop window current_time (dict_items (dict_clear user_rate_limit))
        (dict_clear user_rate_limit) = Inr []
   \<and> dict_contains user_id ([] :: rate_map) = False
   \<and> (\<exists>d'. gate_run window calls user_rate_limit = Inr (replicate (length calls) True, d'))"
  by (simp add: check_rate_limit_eq gate_run_eq dict_clear_def dict_items_def dict_contains_def)

text \<open>
  Claim C1. The claim asks that a second call for the same actor inside the window is
  denied and leaves the recorded timestamp alone. The code answers true and overwrites the
  timestamp: actor 7 calls at time 0 and again at time 1 with a window of 60 seconds.
\<close>

theorem check_rate_limit_second_call_allowed:
  "check_rate_limit 60 0 7 [] = Inr (True, [(7, 0)])
   \<and> check_rate_limit 60 1 7 [(7, 0)] = Inr (True, [(7, 1)])
   \<and> gate_run 60 [(0, 7), (1, 7)] [] = Inr ([True, True], [(7, 1)])"
  by (simp add: check_rate_limit_def dict_clear_def dict_items_def dict_contains_def)

section \<open>Properties of the text operations\<close>

lemma split_lines_not_Nil: "split_lines s \<noteq> []"
  by (induction s) (auto elim: cons_first.elims)

lemma first_line_eq: "first_line content = lower (hd (split_lines content))"
  using split_lines_not_Nil [of content]
  by (cases "split_lines content") (simp_all add: first_line_def)

lemma hd_cons_first: "pieces \<noteq> [] \<Longrightarrow> hd (cons_first c pieces) = c # hd pieces"
  by (cases pieces) simp_all

lemma hd_split_lines_Cons:
  "hd (split_lines (c # cs)) = (if c = CHR 0x0A then [] else c # hd (split_lines cs))"
  by (simp add: hd_cons_first split_lines_not_Nil)

lemma lower_char_fixed:
  assumes c: "(of_char c :: nat) < 65"
  shows "lower_char d = c \<longleftrightarrow> d = c"
proof -
  define n where "n = (of_char d :: nat)"
  have unfolded: "lower_char d =
      (if (65 \<le> n \<and> n \<le> 90) \<or> (192 \<le> n \<and> n \<le> 222 \<and> n \<noteq> 215)
       then char_of (n + 32) else d)"
    by (simp add: lower_char_def Let_def n_def)
  show ?thesis
  proof (cases "(65 \<le> n \<and> n \<le> 90) \<or> (192 \<le> n \<and> n \<le> 222 \<and> n \<noteq> 215)")
    case True
    then have low: "lower_char d = char_of (n + 32)"
      by (simp only: unfolded if_True)
    have "(of_char (char_of (n + 32) :: char) :: nat) = (n + 32) mod 256"
      by (simp only: of_char_of)
    also have "\<dots> = n + 32"
      using True by auto
    finally have "(of_char (lower_char d) :: nat) = n + 32"
      by (simp add: low)
    then have "lower_char d \<noteq> c"
      using c True by auto
    moreover have "d \<noteq> c"
      using c True by (auto simp: n_def)
    ultimately show ?thesis by simp
  next
    case False
    then have "lower_char d = d"
      by (simp only: unfolded if_False)
    then show ?thesis by simp
  qed
qed

lemma startswith_lower_shebang:
  "startswith (lower l) ''#!'' = startswith l ''#!''"
proof (cases l)
  case Nil
  then show ?thesis by (simp add: lower_def)
next
  case (Cons a l')
  show ?thesis
  proof (cases l')
    case Nil
    with Cons show ?thesis by (simp add: lower_def lower_char_fixed)
  next
    case (Cons b l'')
    with \<open>l = a # l'\<close> show ?thesis by (simp add: lower_def lower_char_fixed)
  qed
qed

lemma startswith_hd_split_lines:
  "startswith (hd (split_lines content)) (p # ps) \<Longrightarrow> \<exists>cs. content = p # cs"
  by (cases content) (auto simp: hd_cons_first split_lines_not_Nil split: if_splits)

lemma strip_not_Nil: "\<not> isspace c \<Longrightarrow> strip (c # cs) \<noteq> []"
  by (simp add: strip_def)

lemma not_blank_shebang:
  assumes "startswith (hd (split_lines content)) ''#!''"
  shows "content \<noteq> [] \<and> strip content \<noteq> []"
proof -
  from assms obtain cs where "content = CHR ''#'' # cs"
    using startswith_hd_split_lines by blast
  then show ?thesis
    by (simp add: strip_not_Nil isspace_def)
qed

section \<open>Properties of the language detector\<close>

lemma check_patterns_eq:
  "check_patterns re content w ps score =
     score + (\<Sum>p\<leftarrow>ps. if re_search re p content then 10 * w else 0)"
  by (induction ps arbitrary: score) simp_all

lemma check_keywords_eq:
  "check_keywords re content w ks score =
     score + (\<Sum>k\<leftarrow>ks. keyword_matches re content k * w)"
  by (induction ks arbitrary: score) simp_all

lemma lang_score_eq:
  "lang_score re content config =
     (\<Sum>p\<leftarrow>cfg_patterns config. if re_search re p content then 10 * cfg_weight config else 0)
     + (\<Sum>k\<leftarrow>cfg_keywords config. keyword_matches re content k * cfg_weight config)"
  by (simp add: lang_score_def check_patterns_eq check_keywords_eq)

lemma update_fresh:
  "k \<notin> fst ` set al \<Longrightarrow> AList.update k v al = al @ [(k, v)]"
  by (induction al) auto

lemma candidates_keys: "fst ` set (candidates re content cat) \<subseteq> fst ` set cat"
  by (force simp: candidates_def)

lemma score_loop_eq:
  "distinct (map fst cat) \<Longrightarrow> fst ` set cat \<inter> fst ` set scores = {} \<Longrightarrow>
     score_loop re content cat scores = scores @ candidates re content cat"
proof (induction cat arbitrary: scores)
  case Nil
  show ?case by (simp add: candidates_def)
next
  case (Cons entry cat)
  obtain lang config where entry: "entry = (lang, config)" by (cases entry)
  from Cons.prems have fresh: "lang \<notin> fst ` set scores" and d: "distinct (map fst cat)"
    and notin: "lang \<notin> fst ` set cat" and disj: "fst ` set cat \<inter> fst ` set scores = {}"
    by (auto simp: entry)
  show ?case
  proof (cases "lang_score re content config > 0")
    case True
    have "fst ` set cat \<inter> fst ` set (scores @ [(lang, lang_score re content config)]) = {}"
      using disj notin by auto
    with Cons.IH [OF d] True fresh show ?thesis
      by (simp add: entry update_fresh candidates_def)
  next
    case False
    with Cons.IH [OF d disj] show ?thesis
      by (simp add: entry candidates_def)
  qed
qed

lemma catalog_names:
  "map fst language_patterns =
     [''html'', ''css'', ''javascript'', ''python'', ''php'', ''sql'', ''java'', ''cpp'',
      ''bash'', ''json'', ''xml'', ''yaml'', ''markdown'', ''c'']"
  by (simp add: language_patterns_def)

lemma catalog_distinct: "distinct (map fst language_patterns)"
  by (simp add: catalog_names)

lemma scores_eq:
  "score_loop re content language_patterns [] = candidates re content language_patterns"
  using score_loop_eq [OF catalog_distinct, of "[]"] by simp

lemma max_loop_snoc:
  "max_loop (rest @ [kv]) best =
     (if snd kv > snd (max_loop rest best) then kv else max_loop rest best)"
  by (induction rest arbitrary: best) simp_all

lemma max_loop_first_max:
  "\<exists>pre post. best # rest = pre @ max_loop rest best # post
      \<and> (\<forall>x\<in>set pre. snd x < snd (max_loop rest best))
      \<and> (\<forall>x\<in>set post. snd x \<le> snd (max_loop rest best))"
proof (induction rest rule: rev_induct)
  case Nil
  have "[best] = [] @ best # []" by simp
  then show ?case by force
next
  case (snoc kv rest)
  then obtain pre post where split: "best # rest = pre @ max_loop rest best # post"
    and pre: "\<forall>x\<in>set pre. snd x < snd (max_loop rest best)"
    and post: "\<forall>x\<in>set post. snd x \<le> snd (max_loop rest best)"
    by blast
  show ?case
  proof (cases "snd kv > snd (max_loop rest best)")
    case True
    have "best # rest @ [kv] = (best # rest) @ kv # []" by simp
    moreover have "\<forall>x\<in>set (best # rest). snd x < snd kv"
      using True pre post by (subst split) (auto intro: less_trans le_less_trans)
    ultimately show ?thesis
      unfolding max_loop_snoc using True
      by (intro exI [of _ "best # rest"] exI [of _ "[]"]) simp
  next
    case False
    have "best # rest @ [kv] = pre @ max_loop rest best # (post @ [kv])"
      using split by simp
    moreover have "\<forall>x\<in>set (post @ [kv]). snd x \<le> snd (max_loop rest best)"
      using False post by auto
    ultimately show ?thesis
      unfolding max_loop_snoc using False pre
      by (intro exI [of _ pre] exI [of _ "post @ [kv]"]) simp
  qed
qed

lemma map_filter_split:
  "map g (filter P xs) = pre @ m # post \<Longrightarrow>
     \<exists>us x vs. xs = us @ x # vs \<and> P x \<and> g x = m
        \<and> map g (filter P us) = pre \<and> map g (filter P vs) = post"
proof (induction xs arbitrary: pre)
  case Nil
  then show ?case by simp
next
  case (Cons a xs)
  show ?case
  proof (cases "P a")
    case False
    with Cons.prems have "map g (filter P xs) = pre @ m # post" by simp
    from Cons.IH [OF this] obtain us x vs where
      "xs = us @ x # vs" "P x" "g x = m" "map g (filter P us) = pre" "map g (filter P vs) = post"
      by blast
    with False have "a # xs = (a # us) @ x # vs \<and> P x \<and> g x = m
        \<and> map g (filter P (a # us)) = pre \<and> map g (filter P vs) = post"
      by simp
    then show ?thesis by blast
  next
    case True
    with Cons.prems have eq: "g a # map g (filter P xs) = pre @ m # post" by simp
    show ?thesis
    proof (cases pre)
      case Nil
      with eq True have "a # xs = [] @ a # xs \<and> P a \<and> g a = m
          \<and> map g (filter P []) = pre \<and> map g (filter P xs) = post"
        by simp
      then show ?thesis by blast
    next
      case (Cons p pre')
      with eq have p: "g a = p" and "map g (filter P xs) = pre' @ m # post" by simp_all
      from Cons.IH [OF this(2)] obtain us x vs where
        "xs = us @ x # vs" "P x" "g x = m" "map g (filter P us) = pre'"
        "map g (filter P vs) = post"
        by blast
      with True p Cons have "a # xs = (a # us) @ x # vs \<and> P x \<and> g x = m
          \<and> map g (filter P (a # us)) = pre \<and> map g (filter P vs) = post"
        by simp
      then show ?thesis by blast
    qed
  qed
qed

lemma candidates_lookup:
  "distinct (map fst cat) \<Longrightarrow> (lang, config) \<in> set cat \<Longrightarrow>
     map_of (candidates re content cat) lang =
       (if 0 < lang_score re content config then Some (lang_score re content config) else None)"
proof (induction cat)
  case Nil
  then show ?case by simp
next
  case (Cons entry cat)
  obtain l c where entry: "entry = (l, c)" by (cases entry)
  show ?case
  proof (cases "(lang, config) = (l, c)")
    case True
    from Cons.prems have "l \<notin> fst ` set cat" by (simp add: entry)
    then have "l \<notin> fst ` set (candidates re content cat)"
      using candidates_keys by blast
    then have "map_of (candidates re content cat) l = None"
      by (simp add: map_of_eq_None_iff)
    with True show ?thesis
      by (simp add: entry candidates_def)
  next
    case False
    with Cons.prems have mem: "(lang, config) \<in> set cat" and d: "distinct (map fst cat)"
      and "l \<notin> fst ` set cat"
      by (auto simp: entry)
    then have "lang \<noteq> l" by force
    with Cons.IH [OF d mem] show ?thesis
      by (simp add: entry candidates_def)
  qed
qed

lemma detect_no_shortcut:
  "\<not> takes_shebang_shortcut content \<Longrightarrow>
     detect_language_from_content re content =
       (if is_blank content then None else scored_detection re content)"
  by (auto simp: detect_language_from_content_def takes_shebang_shortcut_def is_blank_def)

lemma max_loop_mem: "max_loop rest best \<in> set (best # rest)"
proof -
  obtain pre post where "best # rest = pre @ max_loop rest best # post"
    using max_loop_first_max by blast
  then show ?thesis
    by (metis in_set_conv_decomp)
qed

lemma scored_detection_in_catalog:
  assumes "scored_detection re content = Some tag"
  shows "tag \<in> set (map fst language_patterns)"
proof (cases "candidates re content language_patterns")
  case Nil
  with assms show ?thesis
    by (simp add: scored_detection_def scores_eq)
next
  case (Cons kv rest)
  with assms have tag: "tag = fst (max_loop rest kv)"
    by (simp add: scored_detection_def scores_eq)
  have "max_loop rest kv \<in> set (kv # rest)"
    by (rule max_loop_mem)
  then have "max_loop rest kv \<in> set (candidates re content language_patterns)"
    by (simp only: Cons)
  then have "fst (max_loop rest kv) \<in> fst ` set (candidates re content language_patterns)"
    by (rule imageI)
  then have "fst (max_loop rest kv) \<in> fst ` set language_patterns"
    using candidates_keys by blast
  then show ?thesis
    by (simp only: tag set_map)
qed

lemma detect_in_catalog:
  assumes "detect_language_from_content re content = Some tag"
  shows "tag \<in> set (map fst language_patterns)"
proof -
  from assms have "tag = ''python'' \<or> tag = ''bash'' \<or> tag = ''javascript''
      \<or> scored_detection re content = Some tag"
    by (simp add: detect_language_from_content_def split: if_splits)
  then consider
      (shortcut) "tag = ''python'' \<or> tag = ''bash'' \<or> tag = ''javascript''"
    | (scored) "scored_detection re content = Some tag"
    by blast
  then show ?thesis
  proof cases
    case shortcut
    then show ?thesis
      unfolding catalog_names by auto
  next
    case scored
    then show ?thesis by (rule scored_detection_in_catalog)
  qed
qed

lemma detect_tag_not_empty:
  "detect_language_from_content re content = Some tag \<Longrightarrow> tag \<noteq> []"
  using detect_in_catalog [of re content tag] unfolding catalog_names by auto

lemma special_not_alnum: "c \<in> set special_chars \<Longrightarrow> \<not> is_ascii_alnum c"
  by (auto simp: special_chars_def is_ascii_alnum_def bs_def)

lemma not_special_plain: "c \<notin> set special_chars \<Longrightarrow> c \<noteq> bs \<and> c \<notin> set metachars"
  by (auto simp: special_chars_def metachars_def)

lemma unescape_py_escape: "unescape_literal (py_escape kw) = Some kw"
proof (induction kw)
  case Nil
  show ?case by (simp add: py_escape_def)
next
  case (Cons c kw)
  have step: "py_escape (c # kw) = (if c \<in> set special_chars then [bs, c] else [c]) @ py_escape kw"
    by (simp add: py_escape_def)
  show ?case
  proof (cases "c \<in> set special_chars")
    case True
    with Cons.IH special_not_alnum [OF True] show ?thesis
      by (simp add: step)
  next
    case False
    with Cons.IH not_special_plain [OF False] show ?thesis
      by (simp add: step)
  qed
qed

lemma wrapped_keyword_escape:
  "wrapped_keyword (bs # CHR ''b'' # py_escape kw @ [bs, CHR ''b'']) = Some kw"
proof -
  let ?e = "py_escape kw"
  have p: "bs # CHR ''b'' # ?e @ [bs, CHR ''b''] = [bs, CHR ''b''] @ ?e @ [bs, CHR ''b'']"
    by simp
  have "drop (length ([bs, CHR ''b''] @ ?e @ [bs, CHR ''b'']) - 2) ([bs, CHR ''b''] @ ?e @ [bs, CHR ''b''])
      = [bs, CHR ''b'']"
    by simp
  moreover have "take (length ([bs, CHR ''b''] @ ?e @ [bs, CHR ''b'']) - 4)
      (drop 2 ([bs, CHR ''b''] @ ?e @ [bs, CHR ''b''])) = ?e"
    by simp
  moreover have "take 2 ([bs, CHR ''b''] @ ?e @ [bs, CHR ''b'']) = [bs, CHR ''b'']"
    by simp
  moreover have "4 \<le> length ([bs, CHR ''b''] @ ?e @ [bs, CHR ''b''])"
    by simp
  ultimately show ?thesis
    unfolding p wrapped_keyword_def by (simp only: unescape_py_escape if_True simp_thms)
qed

lemma keyword_matches_keyword_re:
  "keyword_matches (keyword_re base) content keyword
     = int (length (word_bounded_findall keyword content))"
  by (simp add: keyword_matches_def keyword_re_def Let_def wrapped_keyword_escape)

text \<open>
  Claim C7. The claim adds, for each keyword, \<open>weight\<close> times the number of its whole-token
  occurrences. The source counts the matches of the escaped keyword between two \<^verbatim>\<open>\b\<close>, and
  a \<^verbatim>\<open>\b\<close> next to a non-word character asks for a word character on its other side: a
  keyword that begins or ends with a non-word character is counted only where a letter,
  digit or underscore touches it, and never as a token by itself. In \<^verbatim>\<open>a { b }\<close> the
  keywords \<^verbatim>\<open>{\<close> and \<^verbatim>\<open>}\<close> are counted 0 times (in \<^verbatim>\<open>a{b\<close> the brace is counted once), in
  \<^verbatim>\<open><div>x</div>\<close> the keyword \<^verbatim>\<open><div\<close> is counted 0 times, in \<^verbatim>\<open>x => y\<close> the arrow is counted 0
  times, while \<^verbatim>\<open>return\<close> is counted once in \<^verbatim>\<open>if x: RETURN 1\<close>; css scores 0 on \<^verbatim>\<open>a { b }\<close> and
  is not in the dict of scores.
\<close>

theorem keyword_with_symbol_edge_not_counted:
  "keyword_matches (keyword_re base) ''a { b }'' ''{'' = 0
   \<and> keyword_matches (keyword_re base) ''a { b }'' ''}'' = 0
   \<and> keyword_matches (keyword_re base) ''a{b'' ''{'' = 1
   \<and> keyword_matches (keyword_re base) ''<div>x</div>'' ''<div'' = 0
   \<and> keyword_matches (keyword_re base) ''x => y'' ''=>'' = 0
   \<and> keyword_matches (keyword_re base) ''if x: RETURN 1'' ''return'' = 1
   \<and> language_patterns ! 1 \<in> set language_patterns
   \<and> fst (language_patterns ! 1) = ''css''
   \<and> lang_score (keyword_re literal_re) ''a { b }'' (snd (language_patterns ! 1)) = 0
   \<and> \<not> dict_contains ''css'' (score_loop (keyword_re literal_re) ''a { b }'' language_patterns [])"
proof -
  have k1: "keyword_matches (keyword_re base) ''a { b }'' ''{'' = 0"
    unfolding keyword_matches_keyword_re by code_simp
  have k2: "keyword_matches (keyword_re base) ''a { b }'' ''}'' = 0"
    unfolding keyword_matches_keyword_re by code_simp
  have k3: "keyword_matches (keyword_re base) ''a{b'' ''{'' = 1"
    unfolding keyword_matches_keyword_re by code_simp
  have k4: "keyword_matches (keyword_re base) ''<div>x</div>'' ''<div'' = 0"
    unfolding keyword_matches_keyword_re by code_simp
  have k5: "keyword_matches (keyword_re base) ''x => y'' ''=>'' = 0"
    unfolding keyword_matches_keyword_re by code_simp
  have k6: "keyword_matches (keyword_re base) ''if x: RETURN 1'' ''return'' = 1"
    unfolding keyword_matches_keyword_re by code_simp
  have len: "length language_patterns = 14"
    using arg_cong [OF catalog_names, of length] by simp
  have m: "(fst (language_patterns ! 1), snd (language_patterns ! 1)) \<in> set language_patterns"
    using len by simp
  have n: "fst (language_patterns ! 1) = ''css''"
    by code_simp
  have s: "lang_score (keyword_re literal_re) ''a { b }'' (snd (language_patterns ! 1)) = 0"
    by code_simp
  have "map_of (score_loop (keyword_re literal_re) ''a { b }'' language_patterns [])
      (fst (language_patterns ! 1)) = None"
    using candidates_lookup [OF catalog_distinct m, of "keyword_re literal_re" "''a { b }''"]
    by (simp only: scores_eq s) simp
  then have c: "\<not> dict_contains ''css''
      (score_loop (keyword_re literal_re) ''a { b }'' language_patterns [])"
    by (simp only: n dict_contains_def) simp
  from m have m': "language_patterns ! 1 \<in> set language_patterns"
    by simp
  from k1 k2 k3 k4 k5 k6 m' n s c show ?thesis
    by blast
qed

text \<open>
  Claim C8. For every text that does not take the shebang shortcut: with an empty dict of
  scores the detector returns \<^verbatim>\<open>None\<close>; with a non-empty one it returns the name of a catalog
  entry with a positive score that no entry exceeds and that every earlier entry of the
  catalog stays strictly below, so that among equal top scores the first of the catalog
  wins. A blank text is answered with \<^verbatim>\<open>None\<close> before any score is computed.
\<close>

theorem detect_max_score:
  assumes "\<not> takes_shebang_shortcut content"
  shows "(score_loop re content language_patterns [] = [] \<or> is_blank content
            \<longrightarrow> detect_language_from_content re content = None)
       \<and> (score_loop re content language_patterns [] \<noteq> [] \<and> \<not> is_blank content
            \<longrightarrow> (\<exists>before lang config after.
                   language_patterns = before @ (lang, config) # after
                   \<and> detect_language_from_content re content = Some lang
                   \<and> 0 < lang_score re content config
                   \<and> (\<forall>(l, c)\<in>set before. lang_score re content c < lang_score re content config)
                   \<and> (\<forall>(l, c)\<in>set after. lang_score re content c \<le> lang_score re content config)))"
proof (intro conjI impI)
  assume "score_loop re content language_patterns [] = [] \<or> is_blank content"
  then show "detect_language_from_content re content = None"
    by (auto simp: detect_no_shortcut [OF assms] scored_detection_def)
next
  let ?g = "\<lambda>(lang, config). (lang, lang_score re content config)"
  let ?P = "\<lambda>(lang, config). lang_score re content config > 0"
  assume a: "score_loop re content language_patterns [] \<noteq> [] \<and> \<not> is_blank content"
  then obtain kv rest where sc: "score_loop re content language_patterns [] = kv # rest"
    by (cases "score_loop re content language_patterns []") auto
  with a have det: "detect_language_from_content re content = Some (fst (max_loop rest kv))"
    by (simp add: detect_no_shortcut [OF assms] scored_detection_def)
  obtain pre post where split: "kv # rest = pre @ max_loop rest kv # post"
    and pre: "\<forall>x\<in>set pre. snd x < snd (max_loop rest kv)"
    and post: "\<forall>x\<in>set post. snd x \<le> snd (max_loop rest kv)"
    using max_loop_first_max by blast
  from sc split have "map ?g (filter ?P language_patterns) = pre @ max_loop rest kv # post"
    by (simp add: scores_eq candidates_def)
  from map_filter_split [OF this] obtain before entry after where
    cat: "language_patterns = before @ entry # after" and P: "?P entry"
    and g: "?g entry = max_loop rest kv"
    and b: "map ?g (filter ?P before) = pre" and af: "map ?g (filter ?P after) = post"
    by blast
  obtain lang config where entry: "entry = (lang, config)" by (cases entry)
  from g have m: "max_loop rest kv = (lang, lang_score re content config)"
    by (simp add: entry)
  from P have pos: "0 < lang_score re content config" by (simp add: entry)
  have "lang_score re content c < lang_score re content config" if "(l, c) \<in> set before" for l c
  proof (cases "0 < lang_score re content c")
    case True
    with that have "?g (l, c) \<in> set (map ?g (filter ?P before))" by force
    with b pre m show ?thesis by auto
  next
    case False
    with pos show ?thesis by simp
  qed
  moreover
  have "lang_score re content c \<le> lang_score re content config" if "(l, c) \<in> set after" for l c
  proof (cases "0 < lang_score re content c")
    case True
    with that have "?g (l, c) \<in> set (map ?g (filter ?P after))" by force
    with af post m show ?thesis by auto
  next
    case False
    with pos show ?thesis by simp
  qed
  ultimately
  have "language_patterns = before @ (lang, config) # after
      \<and> detect_language_from_content re content = Some lang
      \<and> 0 < lang_score re content config
      \<and> (\<forall>(l, c)\<in>set before. lang_score re content c < lang_score re content config)
      \<and> (\<forall>(l, c)\<in>set after. lang_score re content c \<le> lang_score re content config)"
    using cat det pos by (auto simp: entry m)
  then show "\<exists>before lang config after.
      language_patterns = before @ (lang, config) # after
      \<and> detect_language_from_content re content = Some lang
      \<and> 0 < lang_score re content config
      \<and> (\<forall>(l, c)\<in>set before. lang_score re content c < lang_score re content config)
      \<and> (\<forall>(l, c)\<in>set after. lang_score re content c \<le> lang_score re content config)"
    by blast
qed

text \<open>
  The text \<^verbatim>\<open>std:: #!/bin/sh\<close> gives cpp and bash 100 each, and cpp, the earlier of the two in
  the catalog, is returned; the text \<^verbatim>\<open>hello\<close> gives no language a score.
\<close>

theorem detect_max_score_witness:
  "\<not> takes_shebang_shortcut ''std:: #!/bin/sh'' \<and> \<not> is_blank ''std:: #!/bin/sh''
   \<and> score_loop literal_re ''std:: #!/bin/sh'' language_patterns []
       = [(''cpp'', 100), (''bash'', 100)]
   \<and> detect_language_from_content literal_re ''std:: #!/bin/sh'' = Some ''cpp''
   \<and> \<not> takes_shebang_shortcut ''hello''
   \<and> score_loop literal_re ''hello'' language_patterns [] = []
   \<and> detect_language_from_content literal_re ''hello'' = None"
proof -
  have t1: "\<not> takes_shebang_shortcut ''std:: #!/bin/sh''" by code_simp
  have t2: "\<not> is_blank ''std:: #!/bin/sh''" by code_simp
  have t3: "score_loop literal_re ''std:: #!/bin/sh'' language_patterns []
      = [(''cpp'', 100), (''bash'', 100)]"
    by code_simp
  have h1: "\<not> takes_shebang_shortcut ''hello''" by code_simp
  have h2: "score_loop literal_re ''hello'' language_patterns [] = []" by code_simp
  have none: "detect_language_from_content literal_re ''hello'' = None"
    using detect_max_score [OF h1, of literal_re] h2 by blast
  have "detect_language_from_content literal_re ''std:: #!/bin/sh'' = Some ''cpp''"
    using t1 t2 t3 by (simp add: detect_no_shortcut scored_detection_def)
  with detect_max_score [OF t1, of literal_re] t1 t2 t3 h1 h2 none show ?thesis by blast
qed

text \<open>
  Claim C6 speaks of what the first line contains. The source looks in the lower-cased
  line: the first line of \<^verbatim>\<open>#!/bin/bash PYTHON\<close> contains \<^verbatim>\<open>bash\<close> and does not contain
  \<^verbatim>\<open>python\<close>, and the detector returns python, not bash.
\<close>

theorem detect_shebang_upper_case:
  "startswith (hd (split_lines ''#!/bin/bash PYTHON'')) ''#!''
   \<and> \<not> str_in ''python'' (hd (split_lines ''#!/bin/bash PYTHON''))
   \<and> str_in ''bash'' (hd (split_lines ''#!/bin/bash PYTHON''))
   \<and> detect_language_from_content literal_re ''#!/bin/bash PYTHON'' = Some ''python''
   \<and> detect_language_from_content literal_re ''#!/bin/bash PYTHON'' \<noteq> Some ''bash''"
  by code_simp

text \<open>
  Claim C6, amended. For every text whose first line starts with \<^verbatim>\<open>#!\<close>: if the line, letter
  case ignored, contains \<^verbatim>\<open>python\<close> the detector returns python; otherwise if it contains
  \<^verbatim>\<open>bash\<close> or \<^verbatim>\<open>sh\<close>, letter case ignored, it returns bash; otherwise if it contains
  \<^verbatim>\<open>node\<close>, letter case ignored, it returns javascript. \<open>first_line\<close> is the lower-cased first
  line the source searches. The answer is the same for every regular expression module
  \<open>re\<close>, that is, whatever the patterns and keywords of the catalog would match in the
  text: the scores play no part.
\<close>

theorem detect_shebang:
  assumes "startswith (hd (split_lines content)) ''#!''"
  shows "(str_in ''python'' (first_line content)
            \<longrightarrow> detect_language_from_content re content = Some ''python'')
       \<and> (\<not> str_in ''python'' (first_line content)
            \<and> (str_in ''bash'' (first_line content) \<or> str_in ''sh'' (first_line content))
            \<longrightarrow> detect_language_from_content re content = Some ''bash'')
       \<and> (\<not> str_in ''python'' (first_line content)
            \<and> \<not> str_in ''bash'' (first_line content) \<and> \<not> str_in ''sh'' (first_line content)
            \<and> str_in ''node'' (first_line content)
            \<longrightarrow> detect_language_from_content re content = Some ''javascript'')"
proof -
  have sw: "startswith (first_line content) ''#!''"
    using assms by (simp only: first_line_eq startswith_lower_shebang)
  have nb: "content \<noteq> [] \<and> strip content \<noteq> []"
    using assms by (rule not_blank_shebang)
  show ?thesis
    by (simp add: detect_language_from_content_def sw nb)
qed

text \<open>
  Three shebang lines. In the first text \<^verbatim>\<open></html>\<close> follows the line: html scores 200 there
  and python 0, and python is returned.
\<close>

theorem detect_shebang_witness:
  "startswith (hd (split_lines ''#!/usr/bin/env python\<newline></html>'')) ''#!''
   \<and> str_in ''python'' (first_line ''#!/usr/bin/env python\<newline></html>'')
   \<and> detect_language_from_content literal_re ''#!/usr/bin/env python\<newline></html>''
       = Some ''python''
   \<and> lang_score literal_re ''#!/usr/bin/env python\<newline></html>'' (snd (language_patterns ! 0))
       = 200
   \<and> lang_score literal_re ''#!/usr/bin/env python\<newline></html>'' (snd (language_patterns ! 3))
       = 0
   \<and> startswith (hd (split_lines ''#!/bin/SH\<newline>echo hi'')) ''#!''
   \<and> \<not> str_in ''python'' (first_line ''#!/bin/SH\<newline>echo hi'')
   \<and> str_in ''sh'' (first_line ''#!/bin/SH\<newline>echo hi'')
   \<and> detect_language_from_content literal_re ''#!/bin/SH\<newline>echo hi'' = Some ''bash''
   \<and> startswith (hd (split_lines ''#!/usr/bin/env node'')) ''#!''
   \<and> \<not> str_in ''python'' (first_line ''#!/usr/bin/env node'')
   \<and> \<not> str_in ''bash'' (first_line ''#!/usr/bin/env node'')
   \<and> \<not> str_in ''sh'' (first_line ''#!/usr/bin/env node'')
   \<and> str_in ''node'' (first_line ''#!/usr/bin/env node'')
   \<and> detect_language_from_content literal_re ''#!/usr/bin/env node'' = Some ''javascript''"
proof -
  have p1: "startswith (hd (split_lines ''#!/usr/bin/env python\<newline></html>'')) ''#!''"
    by code_simp
  have p2: "str_in ''python'' (first_line ''#!/usr/bin/env python\<newline></html>'')"
    by code_simp
  have p3: "lang_score literal_re ''#!/usr/bin/env python\<newline></html>''
      (snd (language_patterns ! 0)) = 200"
    by code_simp
  have p4: "lang_score literal_re ''#!/usr/bin/env python\<newline></html>''
      (snd (language_patterns ! 3)) = 0"
    by code_simp
  have s1: "startswith (hd (split_lines ''#!/bin/SH\<newline>echo hi'')) ''#!''"
    by code_simp
  have s2: "\<not> str_in ''python'' (first_line ''#!/bin/SH\<newline>echo hi'')"
    by code_simp
  have s3: "str_in ''sh'' (first_line ''#!/bin/SH\<newline>echo hi'')"
    by code_simp
  have n1: "startswith (hd (split_lines ''#!/usr/bin/env node'')) ''#!''"
    by code_simp
  have n2: "\<not> str_in ''python'' (first_line ''#!/usr/bin/env node'')"
    by code_simp
  have n3: "\<not> str_in ''bash'' (first_line ''#!/usr/bin/env node'')"
    by code_simp
  have n4: "\<not> str_in ''sh'' (first_line ''#!/usr/bin/env node'')"
    by code_simp
  have n5: "str_in ''node'' (first_line ''#!/usr/bin/env node'')"
    by code_simp
  from detect_shebang [OF p1, of literal_re] detect_shebang [OF s1, of literal_re]
    detect_shebang [OF n1, of literal_re] p1 p2 p3 p4 s1 s2 s3 n1 n2 n3 n4 n5
  show ?thesis by blast
qed

text \<open>
  Claim C10. The detector returns \<^verbatim>\<open>None\<close> or a name of the catalog, the names of the catalog
  are the fourteen listed, the three tags of the shebang shortcut are among them, and every
  key of the dict \<^verbatim>\<open>scores\<close> is a name of the catalog.
\<close>

theorem detect_tag_in_catalog:
  "(detect_language_from_content re content = None
      \<or> (\<exists>tag\<in>set (map fst language_patterns).
            detect_language_from_content re content = Some tag))
   \<and> map fst language_patterns =
       [''html'', ''css'', ''javascript'', ''python'', ''php'', ''sql'', ''java'', ''cpp'',
        ''bash'', ''json'', ''xml'', ''yaml'', ''markdown'', ''c'']
   \<and> set [''python'', ''bash'', ''javascript''] \<subseteq> set (map fst language_patterns)
   \<and> set (map fst (score_loop re content language_patterns []))
       \<subseteq> set (map fst language_patterns)"
proof (intro conjI)
  show "detect_language_from_content re content = None
      \<or> (\<exists>tag\<in>set (map fst language_patterns).
            detect_language_from_content re content = Some tag)"
  proof (cases "detect_language_from_content re content")
    case None
    then show ?thesis by simp
  next
    case (Some tag)
    then have "tag \<in> set (map fst language_patterns)" by (rule detect_in_catalog)
    with Some show ?thesis by blast
  qed
  show "map fst language_patterns =
       [''html'', ''css'', ''javascript'', ''python'', ''php'', ''sql'', ''java'', ''cpp'',
        ''bash'', ''json'', ''xml'', ''yaml'', ''markdown'', ''c'']"
    by (rule catalog_names)
  show "set [''python'', ''bash'', ''javascript''] \<subseteq> set (map fst language_patterns)"
    unfolding catalog_names by simp
  show "set (map fst (score_loop re content language_patterns []))
       \<subseteq> set (map fst language_patterns)"
    using candidates_keys [of re content language_patterns] by (simp only: scores_eq set_map)
qed

section \<open>Properties of the eligibility classifier\<close>

lemma any_indicator_iff:
  "any_indicator re ps line = (\<exists>p\<in>set ps. re_search re p line)"
  by (induction ps) auto

lemma count_code_lines_eq:
  "count_code_lines re ls n = n + length (filter (any_indicator re code_indicators) ls)"
  by (induction ls arbitrary: n) auto

lemma count_code_lines_ratio:
  "real (count_code_lines re (split_lines text) 0) / real (length (split_lines text))
     = code_line_ratio re text"
  by (simp add: count_code_lines_eq code_line_ratio_def matches_some_indicator_def [abs_def]
      any_indicator_iff [abs_def])

text \<open>
  Claim C3. For every text with fewer characters than \<^verbatim>\<open>MIN_MESSAGE_LENGTH\<close> the classifier
  returns false, whatever the text holds and whatever the patterns match.
\<close>

theorem should_create_paste_short:
  "int (length text) < min_message_length \<Longrightarrow>
     should_create_paste re min_message_length text = Inr False"
  by (simp add: should_create_paste_def)

theorem should_create_paste_short_witness:
  "int (length ''print(1)'') < 200 \<and> should_create_paste literal_re 200 ''print(1)'' = Inr False"
  using should_create_paste_short [of "''print(1)''" 200 literal_re] by simp

text \<open>
  Claim C4 says that every text of more than 1000 characters is accepted. The length gate
  comes first: with \<^verbatim>\<open>MIN_MESSAGE_LENGTH\<close> set to 2000 a text of 1001 characters is refused.
\<close>

theorem should_create_paste_long_below_min:
  "1000 < length (replicate 1001 (CHR ''a''))
   \<and> should_create_paste literal_re 2000 (replicate 1001 (CHR ''a'')) = Inr False
   \<and> should_create_paste literal_re 2000 (replicate 1001 (CHR ''a'')) \<noteq> Inr True"
  by (simp add: should_create_paste_def)

text \<open>
  Claim C4, amended. For every text with at least \<^verbatim>\<open>MIN_MESSAGE_LENGTH\<close> characters: if it has
  more than 1000 characters the classifier returns true, whatever its lines look like; and
  if the ratio of the lines that match an indicator pattern, each counted once, to all
  lines exceeds 0.30 the classifier returns true.
\<close>

theorem should_create_paste_long_or_code:
  "(min_message_length \<le> int (length text) \<and> 1000 < length text
      \<longrightarrow> should_create_paste re min_message_length text = Inr True)
   \<and> (min_message_length \<le> int (length text) \<and> 3 / 10 < code_line_ratio re text
      \<longrightarrow> should_create_paste re min_message_length text = Inr True)"
  by (simp add: should_create_paste_def Let_def split_lines_not_Nil count_code_lines_ratio)

theorem should_create_paste_long_or_code_witness:
  "200 \<le> int (length (replicate 1001 (CHR ''a''))) \<and> 1000 < length (replicate 1001 (CHR ''a''))
   \<and> should_create_paste literal_re 200 (replicate 1001 (CHR ''a'')) = Inr True
   \<and> 200 \<le> int (length example_fenced) \<and> 3 / 10 < code_line_ratio literal_re example_fenced
   \<and> should_create_paste literal_re 200 example_fenced = Inr True"
proof -
  have l1: "200 \<le> int (length (replicate 1001 (CHR ''a''))) \<and> 1000 < length (replicate 1001 (CHR ''a''))"
    by simp
  have l2: "200 \<le> int (length example_fenced)"
    by (simp add: example_fenced_def)
  have r2: "3 / 10 < code_line_ratio literal_re example_fenced"
    by code_simp
  from should_create_paste_long_or_code [of 200 "replicate 1001 (CHR ''a'')" literal_re]
    should_create_paste_long_or_code [of 200 example_fenced literal_re] l1 l2 r2
  show ?thesis by blast
qed

text \<open>
  Claim C5. For every text with at least \<^verbatim>\<open>MIN_MESSAGE_LENGTH\<close> and at most 1000 characters
  whose code-line ratio does not exceed 0.30, the classifier returns true exactly when the
  detector returns a tag, and false when it returns \<^verbatim>\<open>None\<close>.
\<close>

theorem should_create_paste_falls_back:
  assumes "min_message_length \<le> int (length text)" and "length text \<le> 1000"
    and "code_line_ratio re text \<le> 3 / 10"
  shows "should_create_paste re min_message_length text
           = Inr (detect_language_from_content re text \<noteq> None)"
proof (cases "detect_language_from_content re text")
  case None
  with assms show ?thesis
    by (simp add: should_create_paste_def Let_def split_lines_not_Nil count_code_lines_ratio)
next
  case (Some tag)
  then have "tag \<noteq> []" by (rule detect_tag_not_empty)
  with Some assms show ?thesis
    by (simp add: should_create_paste_def Let_def split_lines_not_Nil count_code_lines_ratio)
qed

theorem should_create_paste_falls_back_witness:
  "200 \<le> int (length example_prose) \<and> length example_prose \<le> 1000
   \<and> code_line_ratio literal_re example_prose \<le> 3 / 10
   \<and> should_create_paste literal_re 200 example_prose
       = Inr (detect_language_from_content literal_re example_prose \<noteq> None)"
proof -
  have l: "200 \<le> int (length example_prose) \<and> length example_prose \<le> 1000"
    by (simp add: example_prose_def)
  have r: "code_line_ratio literal_re example_prose \<le> 3 / 10"
    by code_simp
  from should_create_paste_falls_back [of 200 example_prose literal_re] l r
  show ?thesis by blast
qed

end
